theory Spec2Isabelle
  imports Main "HOL-Library.Word"
begin

unbundle bit_operations_syntax

section \<open>Machine types, panics and slices\<close>

text \<open>
  The bucket codec of \<^verbatim>\<open>bucket.go\<close> works on Go byte slices and fixed-width
  unsigned integers. \<^verbatim>\<open>BucketOperation\<close> is declared as \<^verbatim>\<open>uint16\<close>;
  \<^verbatim>\<open>Bucket.Decode\<close> assigns a \<^verbatim>\<open>uint64\<close> to \<^verbatim>\<open>Id\<close> and a
  \<^verbatim>\<open>uint16\<close> to \<^verbatim>\<open>Ds\<close> without a conversion, so \<^verbatim>\<open>BucketId\<close> and
  \<^verbatim>\<open>Ds\<close> are these two types. A Go string is a sequence of bytes.
  Go's \<^verbatim>\<open>int\<close> is modelled as \<open>int\<close>: lengths of values held in memory stay far
  below \<open>2 ^ 63\<close>, so the additions of the size helpers never wrap; the conversion
  \<^verbatim>\<open>uint32(...)\<close> in \<^verbatim>\<open>Encode\<close> does truncate and is modelled with its width.
\<close>

type_synonym byte = "8 word"
type_synonym uint16 = "16 word"
type_synonym uint32 = "32 word"
type_synonym uint64 = "64 word"

text \<open>A run-time panic of the Go program; \<open>Inl\<close> of the result type.\<close>

datatype panic = IndexOutOfRange | SliceBoundsOutOfRange | NilPointerDereference

text \<open>The error values of the package; Go's \<^verbatim>\<open>nil\<close> error is \<open>None\<close>.\<close>

datatype error = ErrBucketCrcInvalid

text \<open>
  A byte slice: \<open>held\<close> are the elements below its length, \<open>spare\<close> the elements of
  the backing array between its length and its capacity. Index expressions are checked
  against the length, the upper bound of a slice expression against the capacity, and
  the omitted upper bound of \<^verbatim>\<open>s[lo:]\<close> is the length.
\<close>

record bslice =
  held :: "byte list"
  spare :: "byte list"

definition slen :: "bslice \<Rightarrow> int" where
  "slen s = int (length (held s))"

definition scap :: "bslice \<Rightarrow> int" where
  "scap s = int (length (held s)) + int (length (spare s))"

definition andThen :: "panic + 'a \<Rightarrow> ('a \<Rightarrow> panic + 'b) \<Rightarrow> panic + 'b" where
  "andThen r f = (case r of Inl p \<Rightarrow> Inl p | Inr x \<Rightarrow> f x)"

definition index_at :: "bslice \<Rightarrow> int \<Rightarrow> panic + byte" where
  "index_at s i =
     (if 0 \<le> i \<and> i < slen s then Inr (held s ! nat i) else Inl IndexOutOfRange)"

definition slice_range :: "bslice \<Rightarrow> int \<Rightarrow> int \<Rightarrow> panic + bslice" where
  "slice_range s lo hi =
     (if 0 \<le> lo \<and> lo \<le> hi \<and> hi \<le> scap s
      then Inr \<lparr>held = drop (nat lo) (take (nat hi) (held s @ spare s)),
                spare = drop (nat hi) (held s @ spare s)\<rparr>
      else Inl SliceBoundsOutOfRange)"

definition slice_from :: "bslice \<Rightarrow> int \<Rightarrow> panic + bslice" where
  "slice_from s lo =
     (if 0 \<le> lo \<and> lo \<le> slen s
      then Inr \<lparr>held = drop (nat lo) (held s), spare = spare s\<rparr>
      else Inl SliceBoundsOutOfRange)"

section \<open>encoding/binary, little endian\<close>

text \<open>
  \<^verbatim>\<open>binary.LittleEndian.Uint16/Uint32/Uint64\<close> first touch the last byte they need
  (\<^verbatim>\<open>_ = b[1]\<close>, \<^verbatim>\<open>_ = b[3]\<close>, \<^verbatim>\<open>_ = b[7]\<close>) and then combine the bytes
  with shifts and bitwise or.
\<close>

definition word16_of :: "byte \<Rightarrow> byte \<Rightarrow> uint16" where
  "word16_of b0 b1 = ucast b0 OR push_bit 8 (ucast b1)"

definition word32_of :: "byte \<Rightarrow> byte \<Rightarrow> byte \<Rightarrow> byte \<Rightarrow> uint32" where
  "word32_of b0 b1 b2 b3 =
     ucast b0 OR push_bit 8 (ucast b1) OR push_bit 16 (ucast b2) OR push_bit 24 (ucast b3)"

definition word64_of ::
  "byte \<Rightarrow> byte \<Rightarrow> byte \<Rightarrow> byte \<Rightarrow> byte \<Rightarrow> byte \<Rightarrow> byte \<Rightarrow> byte \<Rightarrow> uint64" where
  "word64_of b0 b1 b2 b3 b4 b5 b6 b7 =
     ucast b0 OR push_bit 8 (ucast b1) OR push_bit 16 (ucast b2) OR push_bit 24 (ucast b3)
     OR push_bit 32 (ucast b4) OR push_bit 40 (ucast b5) OR push_bit 48 (ucast b6)
     OR push_bit 56 (ucast b7)"

definition Uint16 :: "bslice \<Rightarrow> panic + uint16" where
  "Uint16 b =
     andThen (index_at b 1) (\<lambda>_. Inr (word16_of (held b ! 0) (held b ! 1)))"

definition Uint32 :: "bslice \<Rightarrow> panic + uint32" where
  "Uint32 b =
     andThen (index_at b 3) (\<lambda>_.
       Inr (word32_of (held b ! 0) (held b ! 1) (held b ! 2) (held b ! 3)))"

definition Uint64 :: "bslice \<Rightarrow> panic + uint64" where
  "Uint64 b =
     andThen (index_at b 7) (\<lambda>_.
       Inr (word64_of (held b ! 0) (held b ! 1) (held b ! 2) (held b ! 3)
                      (held b ! 4) (held b ! 5) (held b ! 6) (held b ! 7)))"

text \<open>
  The bytes \<^verbatim>\<open>PutUint16/PutUint32/PutUint64\<close> store, in the order of their
  addresses: \<^verbatim>\<open>b[0] = byte(v)\<close>, \<^verbatim>\<open>b[1] = byte(v >> 8)\<close>, ...
\<close>

definition bytes16 :: "uint16 \<Rightarrow> byte list" where
  "bytes16 v = [ucast v, ucast (drop_bit 8 v)]"

definition bytes32 :: "uint32 \<Rightarrow> byte list" where
  "bytes32 v = [ucast v, ucast (drop_bit 8 v), ucast (drop_bit 16 v), ucast (drop_bit 24 v)]"

definition bytes64 :: "uint64 \<Rightarrow> byte list" where
  "bytes64 v = [ucast v, ucast (drop_bit 8 v), ucast (drop_bit 16 v), ucast (drop_bit 24 v),
                ucast (drop_bit 32 v), ucast (drop_bit 40 v), ucast (drop_bit 48 v),
                ucast (drop_bit 56 v)]"

text \<open>
  A store through a sub-slice \<^verbatim>\<open>buf[lo:hi]\<close> of a buffer whose length is its capacity
  (the buffer \<^verbatim>\<open>Encode\<close> allocates with \<^verbatim>\<open>make\<close>): the slice expression is
  checked first, then the index the \<^verbatim>\<open>Put\<close> function touches, then the bytes are
  written into the backing array at offset \<open>lo\<close>.
\<close>

definition store_at :: "byte list \<Rightarrow> nat \<Rightarrow> byte list \<Rightarrow> byte list" where
  "store_at buf off bs = take off buf @ bs @ drop (off + length bs) buf"

definition put_sub :: "byte list \<Rightarrow> int \<Rightarrow> int \<Rightarrow> byte list \<Rightarrow> panic + byte list" where
  "put_sub buf lo hi bs =
     (if \<not> (0 \<le> lo \<and> lo \<le> hi \<and> hi \<le> int (length buf)) then Inl SliceBoundsOutOfRange
      else if hi - lo < int (length bs) then Inl IndexOutOfRange
      else Inr (store_at buf (nat lo) bs))"

definition PutUint16 :: "byte list \<Rightarrow> int \<Rightarrow> int \<Rightarrow> uint16 \<Rightarrow> panic + byte list" where
  "PutUint16 buf lo hi v = put_sub buf lo hi (bytes16 v)"

definition PutUint32 :: "byte list \<Rightarrow> int \<Rightarrow> int \<Rightarrow> uint32 \<Rightarrow> panic + byte list" where
  "PutUint32 buf lo hi v = put_sub buf lo hi (bytes32 v)"

definition PutUint64 :: "byte list \<Rightarrow> int \<Rightarrow> int \<Rightarrow> uint64 \<Rightarrow> panic + byte list" where
  "PutUint64 buf lo hi v = put_sub buf lo hi (bytes64 v)"

text \<open>
  \<^verbatim>\<open>copy(buf[lo:], src)\<close>: the slice expression is checked against the length, and
  \<^verbatim>\<open>copy\<close> moves as many bytes as the shorter of the two holds.
\<close>

definition copy_sub :: "byte list \<Rightarrow> int \<Rightarrow> byte list \<Rightarrow> panic + byte list" where
  "copy_sub buf lo src =
     (if \<not> (0 \<le> lo \<and> lo \<le> int (length buf)) then Inl SliceBoundsOutOfRange
      else Inr (store_at buf (nat lo) (take (min (length buf - nat lo) (length src)) src)))"

text \<open>The value of a byte string read as a little-endian number.\<close>

fun le_val :: "byte list \<Rightarrow> nat" where
  "le_val [] = 0"
| "le_val (b # bs) = unat b + 256 * le_val bs"

text \<open>The bytes of a byte string at the offsets \<open>[lo:hi)\<close>.\<close>

definition bytes_at :: "byte list \<Rightarrow> nat \<Rightarrow> nat \<Rightarrow> byte list" where
  "bytes_at bs lo hi = drop lo (take hi bs)"

section \<open>hash/crc32\<close>

text \<open>
  The IEEE table and the update loop of Go's \<^verbatim>\<open>hash/crc32\<close>, after its reference
  implementation (\<^verbatim>\<open>simplePopulateTable\<close>, \<^verbatim>\<open>simpleUpdate\<close>), which the
  table-sliced and hardware paths of the package compute as well.
\<close>

definition IEEE :: uint32 where
  "IEEE = 0xedb88320"

fun populate_bits :: "nat \<Rightarrow> uint32 \<Rightarrow> uint32 \<Rightarrow> uint32" where
  "populate_bits 0 poly crc = crc"
| "populate_bits (Suc j) poly crc =
     populate_bits j poly
       (if crc AND 1 = 1 then drop_bit 1 crc XOR poly else drop_bit 1 crc)"

definition simpleMakeTable :: "uint32 \<Rightarrow> byte \<Rightarrow> uint32" where
  "simpleMakeTable poly i = populate_bits 8 poly (ucast i)"

definition IEEETable :: "byte \<Rightarrow> uint32" where
  "IEEETable = simpleMakeTable IEEE"

definition simpleUpdate :: "uint32 \<Rightarrow> (byte \<Rightarrow> uint32) \<Rightarrow> byte list \<Rightarrow> uint32" where
  "simpleUpdate crc tab p =
     NOT (fold (\<lambda>v c. tab (ucast c XOR v) XOR drop_bit 8 c) p (NOT crc))"

definition Update :: "uint32 \<Rightarrow> (byte \<Rightarrow> uint32) \<Rightarrow> byte list \<Rightarrow> uint32" where
  "Update crc tab p = simpleUpdate crc tab p"

definition ChecksumIEEE :: "byte list \<Rightarrow> uint32" where
  "ChecksumIEEE data = Update 0 IEEETable data"

section \<open>The bucket record and its header\<close>

definition IdSize :: int where
  "IdSize = 8"

definition DsSize :: int where
  "DsSize = 2"

definition BucketInsertOperation :: uint16 where
  "BucketInsertOperation = 1"

definition BucketUpdateOperation :: uint16 where
  "BucketUpdateOperation = 2"

definition BucketDeleteOperation :: uint16 where
  "BucketDeleteOperation = 3"

record BucketMeta =
  Crc :: uint32
  Op :: uint16
  Size :: uint32

text \<open>
  \<^verbatim>\<open>Meta\<close> is a pointer in the source; \<open>None\<close> is the nil pointer, and the
  \<^verbatim>\<open>BucketMeta\<close> it points to is owned by the bucket. The field \<^verbatim>\<open>Id\<close> is
  written \<open>Id'\<close> here.
\<close>

record Bucket =
  Meta :: "BucketMeta option"
  Id' :: uint64
  Ds :: uint16
  Name :: "byte list"

text \<open>
  The byte widths of the fields of \<^verbatim>\<open>BucketMeta\<close>, in declaration order:
  \<^verbatim>\<open>uint32\<close>, \<^verbatim>\<open>BucketOperation\<close> (a \<^verbatim>\<open>uint16\<close>), \<^verbatim>\<open>uint32\<close>.
\<close>

definition BucketMeta_field_widths :: "int list" where
  "BucketMeta_field_widths = [4, 2, 4]"

text \<open>
  Modelled from the spec: \<^verbatim>\<open>GetDiskSizeFromSingleObject\<close> is called by \<^verbatim>\<open>init\<close>
  and is not part of \<^verbatim>\<open>bucket.go\<close>. The specification describes the header size as
  "a compile-time/constant-computed constant equal to the exact byte width of its three
  fields", "derived from the field widths" as "explicit field-width sums (4+2+4=10)":
  the sum of the widths of the fields of the object it is given.
\<close>

definition GetDiskSizeFromSingleObject :: "int list \<Rightarrow> int" where
  "GetDiskSizeFromSingleObject widths = sum_list widths"

definition BucketMetaSize :: int where
  "BucketMetaSize = GetDiskSizeFromSingleObject BucketMeta_field_widths"

section \<open>The codec\<close>

text \<open>
  \<^verbatim>\<open>BucketMeta.Decode\<close>: the receiver after the call. Every read of the slice
  happens before the first assignment, so a panic leaves the receiver as it was.
\<close>

definition BucketMeta_Decode :: "BucketMeta \<Rightarrow> bslice \<Rightarrow> panic + BucketMeta" where
  "BucketMeta_Decode meta bytes =
     andThen (index_at bytes (BucketMetaSize - 1)) (\<lambda>_.
     andThen (slice_range bytes 0 4) (\<lambda>s1.
     andThen (Uint32 s1) (\<lambda>crc.
     andThen (slice_range bytes 4 6) (\<lambda>s2.
     andThen (Uint16 s2) (\<lambda>op.
     andThen (slice_range bytes 6 10) (\<lambda>s3.
     andThen (Uint32 s3) (\<lambda>size.
       Inr (meta\<lparr>Crc := crc, Size := size, Op := op\<rparr>))))))))"

definition GetPayloadSize :: "Bucket \<Rightarrow> int" where
  "GetPayloadSize b = IdSize + DsSize + int (length (Name b))"

definition GetEntrySize :: "Bucket \<Rightarrow> int" where
  "GetEntrySize b = BucketMetaSize + GetPayloadSize b"

text \<open>
  \<^verbatim>\<open>Bucket.Encode\<close>: the returned buffer (a slice whose length is its capacity) and
  the receiver after the call. The first access through \<^verbatim>\<open>b.Meta\<close> is the
  assignment to \<^verbatim>\<open>b.Meta.Size\<close>, which panics on a nil pointer.
\<close>

definition Encode :: "Bucket \<Rightarrow> panic + (bslice \<times> Bucket)" where
  "Encode b =
     (let entrySize = GetEntrySize b;
          buf0 = replicate (nat entrySize) (0 :: byte)
      in case Meta b of
           None \<Rightarrow> Inl NilPointerDereference
         | Some m \<Rightarrow>
             (let m1 = m\<lparr>Size := word_of_int (GetPayloadSize b)\<rparr> in
              andThen (PutUint16 buf0 4 6 (Op m1)) (\<lambda>buf1.
              andThen (PutUint32 buf1 6 10 (Size m1)) (\<lambda>buf2.
              andThen (PutUint64 buf2 BucketMetaSize (BucketMetaSize + IdSize) (Id' b)) (\<lambda>buf3.
              andThen (PutUint16 buf3 (BucketMetaSize + IdSize)
                         (BucketMetaSize + IdSize + DsSize) (Ds b)) (\<lambda>buf4.
              andThen (copy_sub buf4 (BucketMetaSize + IdSize + DsSize) (Name b)) (\<lambda>buf5.
              andThen (slice_from \<lparr>held = buf5, spare = []\<rparr> 4) (\<lambda>tail.
                let c32 = ChecksumIEEE (held tail);
                    m2 = m1\<lparr>Crc := c32\<rparr>
                in andThen (PutUint32 buf5 0 4 c32) (\<lambda>buf6.
                     Inr (\<lparr>held = buf6, spare = []\<rparr>, b\<lparr>Meta := Some m2\<rparr>))))))))))"

text \<open>
  \<^verbatim>\<open>Bucket.Decode\<close>: the receiver after the call, the argument slice as the call
  leaves it (the function has no store into it) and the returned error.
\<close>

definition Bucket_Decode :: "Bucket \<Rightarrow> bslice \<Rightarrow> panic + (Bucket \<times> bslice \<times> error option)" where
  "Bucket_Decode b bytes =
     andThen (slice_range bytes 0 IdSize) (\<lambda>s1.
     andThen (Uint64 s1) (\<lambda>id.
     andThen (slice_range bytes IdSize (IdSize + DsSize)) (\<lambda>s2.
     andThen (Uint16 s2) (\<lambda>ds.
     andThen (slice_from bytes (IdSize + DsSize)) (\<lambda>name.
       Inr (b\<lparr>Id' := id, Name := held name, Ds := ds\<rparr>, bytes, None))))))"

definition GetCRC :: "Bucket \<Rightarrow> bslice \<Rightarrow> bslice \<Rightarrow> panic + uint32" where
  "GetCRC b headerBuf dataBuf =
     andThen (slice_from headerBuf 4) (\<lambda>h.
       Inr (Update (ChecksumIEEE (held h)) IEEETable (held dataBuf)))"

section \<open>Wire layout and example values\<close>

text \<open>
  The bytes of a record behind its checksum field, in the order \<^verbatim>\<open>Encode\<close> lays
  them out: operation, size, id, data-structure tag, name.
\<close>

definition wire_tail :: "BucketMeta \<Rightarrow> Bucket \<Rightarrow> byte list" where
  "wire_tail m b = bytes16 (Op m) @ bytes32 (word_of_int (GetPayloadSize b)) @
                   bytes64 (Id' b) @ bytes16 (Ds b) @ Name b"

text \<open>
  The payload as the specification has a caller take it, "callers must slice exactly
  \<^verbatim>\<open>Meta.Size\<close> bytes (obtained from the already-decoded header)": the bytes
  \<^verbatim>\<open>buf[BucketMetaSize : BucketMetaSize + int64(meta.Size)]\<close> of a record.
\<close>

definition payload_by_size :: "bslice \<Rightarrow> BucketMeta \<Rightarrow> panic + bslice" where
  "payload_by_size buf m = slice_range buf BucketMetaSize (BucketMetaSize + uint (Size m))"

text \<open>The bytes of a Go string literal of ASCII characters.\<close>

definition go_string :: "string \<Rightarrow> byte list" where
  "go_string s = map (\<lambda>c. word_of_nat (of_char c)) s"

text \<open>
  The bucket of the specification's concrete scenario; the checksum and size its header
  holds before the call are left open.
\<close>

definition scenario :: "uint32 \<Rightarrow> uint32 \<Rightarrow> Bucket" where
  "scenario c s = \<lparr>Meta = Some \<lparr>Crc = c, Op = BucketInsertOperation, Size = s\<rparr>,
                   Id' = 42, Ds = 1, Name = go_string ''orders''\<rparr>"

definition scenario_tail :: "byte list" where
  "scenario_tail = [1, 0, 16, 0, 0, 0, 42, 0, 0, 0, 0, 0, 0, 0, 1, 0,
                    111, 114, 100, 101, 114, 115]"

text \<open>A bucket whose name is \<open>2 ^ 32 - 10\<close> bytes long, and a bucket without header.\<close>

definition huge_bucket :: Bucket where
  "huge_bucket = \<lparr>Meta = Some \<lparr>Crc = 0, Op = BucketInsertOperation, Size = 0\<rparr>,
                  Id' = 7, Ds = 1, Name = replicate 4294967286 0\<rparr>"

definition zero_meta :: BucketMeta where
  "zero_meta = \<lparr>Crc = 0, Op = 0, Size = 0\<rparr>"

definition zero_bucket :: Bucket where
  "zero_bucket = \<lparr>Meta = None, Id' = 0, Ds = 0, Name = []\<rparr>"

text \<open>
  The round trip of a caller that splits the record by the size its header carries:
  encode, take \<^verbatim>\<open>Meta.Size\<close> bytes behind the header, decode them into \<open>recv\<close>.
\<close>

definition decode_per_size :: "Bucket \<Rightarrow> Bucket \<Rightarrow> panic + (Bucket \<times> bslice \<times> error option)" where
  "decode_per_size recv b =
     andThen (Encode b) (\<lambda>(buf, b').
       case Meta b' of
         None \<Rightarrow> Inl NilPointerDereference
       | Some m' \<Rightarrow> andThen (payload_by_size buf m') (Bucket_Decode recv))"

text \<open>The header of the receiver once \<^verbatim>\<open>Encode\<close> has returned.\<close>

definition encoded_meta :: "Bucket \<Rightarrow> BucketMeta option" where
  "encoded_meta b = (case Encode b of Inl p \<Rightarrow> None | Inr (buf, b') \<Rightarrow> Meta b')"

section \<open>Basic facts\<close>

lemma andThen_Inr [simp]: "andThen (Inr x) f = f x"
  by (simp add: andThen_def)

lemma andThen_Inl [simp]: "andThen (Inl p) f = Inl p"
  by (simp add: andThen_def)

lemma BucketMetaSize_eq: "BucketMetaSize = 10"
  by (simp add: BucketMetaSize_def GetDiskSizeFromSingleObject_def BucketMeta_field_widths_def)

lemma length_bytes16 [simp]: "length (bytes16 v) = 2"
  by (simp add: bytes16_def)

lemma length_bytes32 [simp]: "length (bytes32 v) = 4"
  by (simp add: bytes32_def)

lemma length_bytes64 [simp]: "length (bytes64 v) = 8"
  by (simp add: bytes64_def)

lemma store_at_mid:
  "length pre = off \<Longrightarrow> length old = length bs \<Longrightarrow>
   store_at (pre @ old @ post) off bs = pre @ bs @ post"
  by (simp add: store_at_def)

lemma store_at_front:
  "length old = length bs \<Longrightarrow> store_at (old @ post) 0 bs = bs @ post"
  by (simp add: store_at_def)

lemma crc_append: "Update (ChecksumIEEE xs) IEEETable ys = ChecksumIEEE (xs @ ys)"
  by (simp add: ChecksumIEEE_def Update_def simpleUpdate_def)

lemma Uint16_held:
  "2 \<le> length bs \<Longrightarrow> Uint16 \<lparr>held = bs, spare = sp\<rparr> = Inr (word16_of (bs ! 0) (bs ! 1))"
  by (simp add: Uint16_def index_at_def slen_def)

lemma Uint32_held:
  "4 \<le> length bs \<Longrightarrow>
   Uint32 \<lparr>held = bs, spare = sp\<rparr> = Inr (word32_of (bs ! 0) (bs ! 1) (bs ! 2) (bs ! 3))"
  by (simp add: Uint32_def index_at_def slen_def)

lemma Uint64_held:
  "8 \<le> length bs \<Longrightarrow>
   Uint64 \<lparr>held = bs, spare = sp\<rparr> =
     Inr (word64_of (bs ! 0) (bs ! 1) (bs ! 2) (bs ! 3) (bs ! 4) (bs ! 5) (bs ! 6) (bs ! 7))"
  by (simp add: Uint64_def index_at_def slen_def)

lemma BucketMeta_Decode_ok:
  assumes "10 \<le> length (held s)"
  shows "BucketMeta_Decode meta s =
           Inr (meta\<lparr>Crc := word32_of (held s ! 0) (held s ! 1) (held s ! 2) (held s ! 3),
                     Size := word32_of (held s ! 6) (held s ! 7) (held s ! 8) (held s ! 9),
                     Op := word16_of (held s ! 4) (held s ! 5)\<rparr>)"
  using assms
  by (simp add: BucketMeta_Decode_def BucketMetaSize_eq index_at_def slen_def scap_def
      slice_range_def Uint32_held Uint16_held nth_append)

lemma BucketMeta_Decode_short:
  assumes "length (held s) < 10"
  shows "BucketMeta_Decode meta s = Inl IndexOutOfRange"
  using assms
  by (simp add: BucketMeta_Decode_def BucketMetaSize_eq index_at_def slen_def)

lemma Bucket_Decode_ok:
  assumes "10 \<le> length (held s)"
  shows "Bucket_Decode b s =
           Inr (b\<lparr>Id' := word64_of (held s ! 0) (held s ! 1) (held s ! 2) (held s ! 3)
                                  (held s ! 4) (held s ! 5) (held s ! 6) (held s ! 7),
                  Name := drop 10 (held s),
                  Ds := word16_of (held s ! 8) (held s ! 9)\<rparr>, s, None)"
  using assms
  by (simp add: Bucket_Decode_def IdSize_def DsSize_def slen_def scap_def
      slice_range_def slice_from_def Uint64_held Uint16_held nth_append)

lemma Bucket_Decode_short:
  assumes "length (held s) < 10"
  shows "Bucket_Decode b s = Inl SliceBoundsOutOfRange"
  using assms
  by (auto simp add: Bucket_Decode_def IdSize_def DsSize_def slen_def scap_def
      slice_range_def slice_from_def Uint64_def Uint16_def index_at_def andThen_def split: sum.splits if_splits)

section \<open>Little-endian words\<close>

lemma le_val_nat2:
  fixes a :: nat
  assumes "a < 2 ^ 16"
  shows "a mod 256 + 256 * (a div 256 mod 256) = a"
proof -
  have "a div 256 < 256" using assms by (simp add: less_mult_imp_div_less)
  then show ?thesis by simp
qed

lemma le_val_nat4:
  fixes a :: nat
  assumes "a < 2 ^ 32"
  shows "a mod 256 + 256 * (a div 256 mod 256 + 256 * (a div 65536 mod 256 +
           256 * (a div 16777216 mod 256))) = a"
proof -
  have d2: "a div 65536 = a div 256 div 256" by (simp add: div_mult2_eq)
  have d3: "a div 16777216 = a div 256 div 256 div 256" by (simp add: div_mult2_eq)
  have "a div 16777216 < 256" using assms by (simp add: less_mult_imp_div_less)
  then have m: "a div 256 div 256 div 256 mod 256 = a div 256 div 256 div 256"
    using d3 by simp
  show ?thesis unfolding d2 d3 m by simp
qed

lemma le_val_bytes16: "le_val (bytes16 v) = unat v"
proof -
  have lt: "unat v < 2 ^ 16" using unsigned_less [of v, where 'a = nat] by simp
  have "le_val (bytes16 v) = unat v mod 256 + 256 * (unat v div 256 mod 256)"
    by (simp add: bytes16_def unsigned_ucast_eq unat_drop_bit_eq take_bit_eq_mod
        drop_bit_eq_div unat_div)
  also have "\<dots> = unat v" using lt by (rule le_val_nat2)
  finally show ?thesis .
qed

lemma le_val_bytes32: "le_val (bytes32 v) = unat v"
proof -
  have lt: "unat v < 2 ^ 32" using unsigned_less [of v, where 'a = nat] by simp
  have "le_val (bytes32 v) =
          unat v mod 256 + 256 * (unat v div 256 mod 256 + 256 * (unat v div 65536 mod 256 +
            256 * (unat v div 16777216 mod 256)))"
    by (simp add: bytes32_def unsigned_ucast_eq unat_drop_bit_eq take_bit_eq_mod
        drop_bit_eq_div unat_div)
  also have "\<dots> = unat v" using lt by (rule le_val_nat4)
  finally show ?thesis .
qed

lemma word16_of_bytes16: "word16_of (ucast v) (ucast (drop_bit 8 v)) = v"
  unfolding word16_of_def
proof (rule bit_word_eqI)
  fix n assume "n < LENGTH(16)"
  then show "bit (ucast (ucast v :: byte) OR push_bit 8 (ucast (ucast (drop_bit 8 v) :: byte))
               :: uint16) n = bit v n"
    by (cases "n < 8") (auto simp add: bit_simps)
qed

lemma word32_of_bytes32:
  "word32_of (ucast v) (ucast (drop_bit 8 v)) (ucast (drop_bit 16 v)) (ucast (drop_bit 24 v)) = v"
  unfolding word32_of_def
proof (rule bit_word_eqI)
  fix n assume n: "n < LENGTH(32)"
  consider "n < 8" | "8 \<le> n" "n < 16" | "16 \<le> n" "n < 24" | "24 \<le> n" "n < 32"
    using n by fastforce
  then show "bit (ucast (ucast v :: byte) OR push_bit 8 (ucast (ucast (drop_bit 8 v) :: byte))
               OR push_bit 16 (ucast (ucast (drop_bit 16 v) :: byte))
               OR push_bit 24 (ucast (ucast (drop_bit 24 v) :: byte)) :: uint32) n = bit v n"
    by cases (auto simp add: bit_simps)
qed

lemma word64_of_bytes64:
  "word64_of (ucast v) (ucast (drop_bit 8 v)) (ucast (drop_bit 16 v)) (ucast (drop_bit 24 v))
     (ucast (drop_bit 32 v)) (ucast (drop_bit 40 v)) (ucast (drop_bit 48 v))
     (ucast (drop_bit 56 v)) = v"
  unfolding word64_of_def
proof (rule bit_word_eqI)
  fix n assume n: "n < LENGTH(64)"
  consider "n < 8" | "8 \<le> n" "n < 16" | "16 \<le> n" "n < 24" | "24 \<le> n" "n < 32"
    | "32 \<le> n" "n < 40" | "40 \<le> n" "n < 48" | "48 \<le> n" "n < 56" | "56 \<le> n" "n < 64"
    using n by fastforce
  then show "bit (ucast (ucast v :: byte) OR push_bit 8 (ucast (ucast (drop_bit 8 v) :: byte))
               OR push_bit 16 (ucast (ucast (drop_bit 16 v) :: byte))
               OR push_bit 24 (ucast (ucast (drop_bit 24 v) :: byte))
               OR push_bit 32 (ucast (ucast (drop_bit 32 v) :: byte))
               OR push_bit 40 (ucast (ucast (drop_bit 40 v) :: byte))
               OR push_bit 48 (ucast (ucast (drop_bit 48 v) :: byte))
               OR push_bit 56 (ucast (ucast (drop_bit 56 v) :: byte)) :: uint64) n = bit v n"
    by cases (auto simp add: bit_simps)
qed

lemma bytes16_word16_of: "bytes16 (word16_of b0 b1) = [b0, b1]"
  unfolding bytes16_def word16_of_def
  apply simp
  apply (intro conjI; rule bit_word_eqI)
   apply (auto simp add: bit_simps dest: bit_imp_le_length)
  done

lemma bytes32_word32_of: "bytes32 (word32_of b0 b1 b2 b3) = [b0, b1, b2, b3]"
  unfolding bytes32_def word32_of_def
  apply simp
  apply (intro conjI; rule bit_word_eqI)
     apply (auto simp add: bit_simps dest: bit_imp_le_length)
  done

lemma unat_word16_of: "unat (word16_of b0 b1) = le_val [b0, b1]"
  using le_val_bytes16 [of "word16_of b0 b1"] by (simp only: bytes16_word16_of)

lemma unat_word32_of: "unat (word32_of b0 b1 b2 b3) = le_val [b0, b1, b2, b3]"
  using le_val_bytes32 [of "word32_of b0 b1 b2 b3"] by (simp only: bytes32_word32_of)

section \<open>What the codec computes\<close>

lemma Encode_Some:
  assumes "Meta b = Some m"
  shows "Encode b =
           Inr (\<lparr>held = bytes32 (ChecksumIEEE (wire_tail m b)) @ wire_tail m b, spare = []\<rparr>,
                b\<lparr>Meta := Some (m\<lparr>Size := word_of_int (GetPayloadSize b),
                                   Crc := ChecksumIEEE (wire_tail m b)\<rparr>)\<rparr>)"
proof -
  define n where "n = length (Name b)"
  define sz :: uint32 where "sz = word_of_int (GetPayloadSize b)"
  define Z :: "nat \<Rightarrow> byte list" where "Z = (\<lambda>k. replicate k 0)"
  have lenZ [simp]: "length (Z k) = k" for k by (simp add: Z_def)
  have e: "nat (GetEntrySize b) = 4 + (2 + (4 + (8 + (2 + n))))"
    by (simp add: GetEntrySize_def GetPayloadSize_def BucketMetaSize_eq IdSize_def DsSize_def n_def)
  have buf0: "replicate (nat (GetEntrySize b)) 0 = Z 4 @ Z 2 @ Z 4 @ Z 8 @ Z 2 @ Z n"
    unfolding e Z_def by (simp only: replicate_add)
  have s1: "PutUint16 (Z 4 @ Z 2 @ Z 4 @ Z 8 @ Z 2 @ Z n) 4 6 (Op m)
              = Inr (Z 4 @ bytes16 (Op m) @ Z 4 @ Z 8 @ Z 2 @ Z n)"
    by (simp add: PutUint16_def put_sub_def store_at_mid)
  have s2: "PutUint32 (Z 4 @ bytes16 (Op m) @ Z 4 @ Z 8 @ Z 2 @ Z n) 6 10 sz
              = Inr (Z 4 @ bytes16 (Op m) @ bytes32 sz @ Z 8 @ Z 2 @ Z n)"
    using store_at_mid [of "Z 4 @ bytes16 (Op m)" 6 "Z 4" "bytes32 sz" "Z 8 @ Z 2 @ Z n"]
    by (simp add: PutUint32_def put_sub_def)
  have s3: "PutUint64 (Z 4 @ bytes16 (Op m) @ bytes32 sz @ Z 8 @ Z 2 @ Z n) 10 18 (Id' b)
              = Inr (Z 4 @ bytes16 (Op m) @ bytes32 sz @ bytes64 (Id' b) @ Z 2 @ Z n)"
    using store_at_mid [of "Z 4 @ bytes16 (Op m) @ bytes32 sz" 10 "Z 8" "bytes64 (Id' b)" "Z 2 @ Z n"]
    by (simp add: PutUint64_def put_sub_def)
  have s4: "PutUint16 (Z 4 @ bytes16 (Op m) @ bytes32 sz @ bytes64 (Id' b) @ Z 2 @ Z n) 18 20 (Ds b)
              = Inr (Z 4 @ bytes16 (Op m) @ bytes32 sz @ bytes64 (Id' b) @ bytes16 (Ds b) @ Z n)"
    using store_at_mid [of "Z 4 @ bytes16 (Op m) @ bytes32 sz @ bytes64 (Id' b)" 18 "Z 2"
        "bytes16 (Ds b)" "Z n"]
    by (simp add: PutUint16_def put_sub_def)
  have s5: "copy_sub (Z 4 @ bytes16 (Op m) @ bytes32 sz @ bytes64 (Id' b) @ bytes16 (Ds b) @ Z n) 20 (Name b)
              = Inr (Z 4 @ bytes16 (Op m) @ bytes32 sz @ bytes64 (Id' b) @ bytes16 (Ds b) @ Name b)"
    using store_at_mid [of "Z 4 @ bytes16 (Op m) @ bytes32 sz @ bytes64 (Id' b) @ bytes16 (Ds b)" 20
        "Z n" "Name b" "[]"]
    by (simp add: copy_sub_def n_def)
  have s6: "slice_from \<lparr>held = Z 4 @ wire_tail m b, spare = []\<rparr> 4
              = Inr \<lparr>held = wire_tail m b, spare = []\<rparr>"
    by (simp add: slice_from_def slen_def)
  have s7: "PutUint32 (Z 4 @ wire_tail m b) 0 4 c = Inr (bytes32 c @ wire_tail m b)" for c
    by (simp add: PutUint32_def put_sub_def store_at_front)
  have wt: "bytes16 (Op m) @ bytes32 sz @ bytes64 (Id' b) @ bytes16 (Ds b) @ Name b = wire_tail m b"
    by (simp add: wire_tail_def sz_def)
  show ?thesis
    unfolding Encode_def Let_def buf0
    using assms
    by (simp add: BucketMetaSize_eq IdSize_def DsSize_def s1 s2 [unfolded sz_def] s3 [unfolded sz_def] s4 [unfolded sz_def] s5 [unfolded sz_def] wt [unfolded sz_def] s6 s7)
qed

lemma go_string_orders: "go_string ''orders'' = [111, 114, 100, 101, 114, 115]"
  by (simp add: go_string_def)

lemma Encode_None: "Meta b = None \<Longrightarrow> Encode b = Inl NilPointerDereference"
  by (simp add: Encode_def Let_def)

lemma Encode_InrD:
  assumes "Encode b = Inr (buf, b')"
  obtains m where "Meta b = Some m"
    and "buf = \<lparr>held = bytes32 (ChecksumIEEE (wire_tail m b)) @ wire_tail m b, spare = []\<rparr>"
    and "b' = b\<lparr>Meta := Some (m\<lparr>Size := word_of_int (GetPayloadSize b),
                                   Crc := ChecksumIEEE (wire_tail m b)\<rparr>)\<rparr>"
proof (cases "Meta b")
  case None
  with assms show ?thesis by (simp add: Encode_None)
next
  case (Some m)
  with assms that [of m] show ?thesis by (simp add: Encode_Some)
qed

lemma wire_tail_scenario: "wire_tail \<lparr>Crc = c, Op = BucketInsertOperation, Size = s\<rparr> (scenario c s) = scenario_tail"
  by (simp add: wire_tail_def scenario_def scenario_tail_def go_string_orders GetPayloadSize_def
      IdSize_def DsSize_def BucketInsertOperation_def bytes16_def bytes32_def bytes64_def)

lemma Encode_scenario:
  "Encode (scenario c s) =
     Inr (\<lparr>held = bytes32 (ChecksumIEEE scenario_tail) @ scenario_tail, spare = []\<rparr>,
          \<lparr>Meta = Some \<lparr>Crc = ChecksumIEEE scenario_tail, Op = 1, Size = 16\<rparr>,
             Id' = 42, Ds = 1, Name = [111, 114, 100, 101, 114, 115]\<rparr>)"
proof -
  have m: "Meta (scenario c s) = Some \<lparr>Crc = c, Op = BucketInsertOperation, Size = s\<rparr>"
    by (simp add: scenario_def)
  show ?thesis
    unfolding Encode_Some [OF m] wire_tail_scenario
    by (simp add: scenario_def go_string_orders GetPayloadSize_def IdSize_def DsSize_def
        BucketInsertOperation_def)
qed

section \<open>Byte ranges\<close>

lemma bytes_at_prefix4:
  "4 \<le> length xs \<Longrightarrow> bytes_at xs 0 4 = [xs ! 0, xs ! 1, xs ! 2, xs ! 3]"
  by (cases xs; cases "tl xs"; cases "tl (tl xs)"; cases "tl (tl (tl xs))")
     (auto simp add: bytes_at_def)

lemma bytes_at_2: "lo + 2 \<le> length xs \<Longrightarrow> bytes_at xs lo (lo + 2) = [xs ! lo, xs ! (lo + 1)]"
proof -
  assume a: "lo + 2 \<le> length xs"
  have "bytes_at xs lo (lo + 2) = take 2 (drop lo xs)"
    by (simp add: bytes_at_def drop_take)
  also have "\<dots> = [drop lo xs ! 0, drop lo xs ! 1]"
    using a by (cases "drop lo xs"; cases "tl (drop lo xs)") (auto simp: drop_eq_Nil dest!: arg_cong [where f = length])
  finally show ?thesis using a by simp
qed

lemma bytes_at_4:
  "lo + 4 \<le> length xs \<Longrightarrow>
   bytes_at xs lo (lo + 4) = [xs ! lo, xs ! (lo + 1), xs ! (lo + 2), xs ! (lo + 3)]"
proof -
  assume a: "lo + 4 \<le> length xs"
  define ys where "ys = drop lo xs"
  have l: "4 \<le> length ys" using a by (simp add: ys_def)
  have "bytes_at xs lo (lo + 4) = take 4 ys"
    by (simp add: bytes_at_def drop_take ys_def)
  also have "\<dots> = bytes_at ys 0 4" by (simp add: bytes_at_def)
  also have "\<dots> = [ys ! 0, ys ! 1, ys ! 2, ys ! 3]" using l by (rule bytes_at_prefix4)
  finally show ?thesis using a by (simp add: ys_def)
qed

section \<open>Decoding what was encoded\<close>

lemma huge_payload: "GetPayloadSize huge_bucket = 4294967296"
  by (simp add: GetPayloadSize_def huge_bucket_def IdSize_def DsSize_def)

lemma huge_meta: "Meta huge_bucket = Some \<lparr>Crc = 0, Op = BucketInsertOperation, Size = 0\<rparr>"
  by (simp add: huge_bucket_def)

lemma word16_of_lo [simp]: "word16_of b 0 = ucast b"
  by (simp add: word16_of_def)

lemma decode_wire_payload:
  "Bucket_Decode recv \<lparr>held = bytes64 i @ bytes16 d @ nm, spare = sp\<rparr>
     = Inr (recv\<lparr>Id' := i, Name := nm, Ds := d\<rparr>,
            \<lparr>held = bytes64 i @ bytes16 d @ nm, spare = sp\<rparr>, None)"
proof -
  let ?p = "\<lparr>held = bytes64 i @ bytes16 d @ nm, spare = sp\<rparr>"
  have len: "10 \<le> length (held ?p)" by simp
  have i: "word64_of (held ?p ! 0) (held ?p ! 1) (held ?p ! 2) (held ?p ! 3)
             (held ?p ! 4) (held ?p ! 5) (held ?p ! 6) (held ?p ! 7) = i"
    using word64_of_bytes64 [of i] by (simp add: bytes64_def)
  have d: "word16_of (held ?p ! 8) (held ?p ! 9) = d"
    using word16_of_bytes16 [of d] by (simp add: bytes64_def bytes16_def)
  have n: "drop 10 (held ?p) = nm" by simp
  show ?thesis
    unfolding Bucket_Decode_ok [OF len] i d n ..
qed

lemma scenario_tail_split:
  "scenario_tail = bytes16 1 @ bytes32 16 @ bytes64 42 @ bytes16 1 @ go_string ''orders''"
  by (simp add: scenario_tail_def bytes16_def bytes32_def bytes64_def go_string_orders)

section \<open>Test vectors\<close>

lemma populate_bits_8:
  "populate_bits 8 poly c =
     populate_bits 0 poly (populate_bits 1 poly (populate_bits 1 poly (populate_bits 1 poly
       (populate_bits 1 poly (populate_bits 1 poly (populate_bits 1 poly (populate_bits 1 poly
         (populate_bits 1 poly c))))))))"
proof -
  have "(8::nat) = Suc (Suc (Suc (Suc (Suc (Suc (Suc (Suc 0)))))))" by simp
  then show ?thesis by (simp only: populate_bits.simps One_nat_def)
qed

text \<open>
  Single steps of the update loop on the bytes of the two test vectors below, each
  evaluated from the table construction.
\<close>

lemma crc_init: "NOT (0 :: uint32) = 4294967295"
  by simp

lemma crc_final_check: "NOT (873187033 :: uint32) = 3421780262"
  by simp

lemma crc_final_scenario: "NOT (3690142840 :: uint32) = 604824455"
  by simp

lemma crc_step_0:
  "IEEETable (ucast (4294967295 :: uint32) XOR 49) XOR drop_bit 8 4294967295 = 2082672712"
  by (simp add: IEEETable_def simpleMakeTable_def IEEE_def populate_bits_8)

lemma crc_step_1:
  "IEEETable (ucast (2082672712 :: uint32) XOR 50) XOR drop_bit 8 2082672712 = 2964110130"
  by (simp add: IEEETable_def simpleMakeTable_def IEEE_def populate_bits_8)

lemma crc_step_2:
  "IEEETable (ucast (2964110130 :: uint32) XOR 51) XOR drop_bit 8 2964110130 = 2008521773"
  by (simp add: IEEETable_def simpleMakeTable_def IEEE_def populate_bits_8)

lemma crc_step_3:
  "IEEETable (ucast (2008521773 :: uint32) XOR 52) XOR drop_bit 8 2008521773 = 1679564636"
  by (simp add: IEEETable_def simpleMakeTable_def IEEE_def populate_bits_8)

lemma crc_step_4:
  "IEEETable (ucast (1679564636 :: uint32) XOR 53) XOR drop_bit 8 1679564636 = 873121251"
  by (simp add: IEEETable_def simpleMakeTable_def IEEE_def populate_bits_8)

lemma crc_step_5:
  "IEEETable (ucast (873121251 :: uint32) XOR 54) XOR drop_bit 8 873121251 = 4136447134"
  by (simp add: IEEETable_def simpleMakeTable_def IEEE_def populate_bits_8)

lemma crc_step_6:
  "IEEETable (ucast (4136447134 :: uint32) XOR 55) XOR drop_bit 8 4136447134 = 2952566368"
  by (simp add: IEEETable_def simpleMakeTable_def IEEE_def populate_bits_8)

lemma crc_step_7:
  "IEEETable (ucast (2952566368 :: uint32) XOR 56) XOR drop_bit 8 2952566368 = 1696539984"
  by (simp add: IEEETable_def simpleMakeTable_def IEEE_def populate_bits_8)

lemma crc_step_8:
  "IEEETable (ucast (1696539984 :: uint32) XOR 57) XOR drop_bit 8 1696539984 = 873187033"
  by (simp add: IEEETable_def simpleMakeTable_def IEEE_def populate_bits_8)

lemma crc_step_9:
  "IEEETable (ucast (4294967295 :: uint32) XOR 1) XOR drop_bit 8 4294967295 = 1526341860"
  by (simp add: IEEETable_def simpleMakeTable_def IEEE_def populate_bits_8)

lemma crc_step_10:
  "IEEETable (ucast (1526341860 :: uint32) XOR 0) XOR drop_bit 8 1526341860 = 2805849153"
  by (simp add: IEEETable_def simpleMakeTable_def IEEE_def populate_bits_8)

lemma crc_step_11:
  "IEEETable (ucast (2805849153 :: uint32) XOR 16) XOR drop_bit 8 2805849153 = 483089598"
  by (simp add: IEEETable_def simpleMakeTable_def IEEE_def populate_bits_8)

lemma crc_step_12:
  "IEEETable (ucast (483089598 :: uint32) XOR 0) XOR drop_bit 8 483089598 = 751130071"
  by (simp add: IEEETable_def simpleMakeTable_def IEEE_def populate_bits_8)

lemma crc_step_13:
  "IEEETable (ucast (751130071 :: uint32) XOR 0) XOR drop_bit 8 751130071 = 412844578"
  by (simp add: IEEETable_def simpleMakeTable_def IEEE_def populate_bits_8)

lemma crc_step_14:
  "IEEETable (ucast (412844578 :: uint32) XOR 0) XOR drop_bit 8 412844578 = 3581467238"
  by (simp add: IEEETable_def simpleMakeTable_def IEEE_def populate_bits_8)

lemma crc_step_15:
  "IEEETable (ucast (3581467238 :: uint32) XOR 42) XOR drop_bit 8 3581467238 = 2143253857"
  by (simp add: IEEETable_def simpleMakeTable_def IEEE_def populate_bits_8)

lemma crc_step_16:
  "IEEETable (ucast (2143253857 :: uint32) XOR 0) XOR drop_bit 8 2143253857 = 986377915"
  by (simp add: IEEETable_def simpleMakeTable_def IEEE_def populate_bits_8)

lemma crc_step_17:
  "IEEETable (ucast (986377915 :: uint32) XOR 0) XOR drop_bit 8 986377915 = 1552523498"
  by (simp add: IEEETable_def simpleMakeTable_def IEEE_def populate_bits_8)

lemma crc_step_18:
  "IEEETable (ucast (1552523498 :: uint32) XOR 0) XOR drop_bit 8 1552523498 = 1082360518"
  by (simp add: IEEETable_def simpleMakeTable_def IEEE_def populate_bits_8)

lemma crc_step_19:
  "IEEETable (ucast (1082360518 :: uint32) XOR 0) XOR drop_bit 8 1082360518 = 1917314055"
  by (simp add: IEEETable_def simpleMakeTable_def IEEE_def populate_bits_8)

lemma crc_step_20:
  "IEEETable (ucast (1917314055 :: uint32) XOR 0) XOR drop_bit 8 1917314055 = 2652295751"
  by (simp add: IEEETable_def simpleMakeTable_def IEEE_def populate_bits_8)

lemma crc_step_21:
  "IEEETable (ucast (2652295751 :: uint32) XOR 0) XOR drop_bit 8 2652295751 = 3894854369"
  by (simp add: IEEETable_def simpleMakeTable_def IEEE_def populate_bits_8)

lemma crc_step_22:
  "IEEETable (ucast (3894854369 :: uint32) XOR 0) XOR drop_bit 8 3894854369 = 3622171692"
  by (simp add: IEEETable_def simpleMakeTable_def IEEE_def populate_bits_8)

lemma crc_step_23:
  "IEEETable (ucast (3622171692 :: uint32) XOR 1) XOR drop_bit 8 3622171692 = 1158199681"
  by (simp add: IEEETable_def simpleMakeTable_def IEEE_def populate_bits_8)

lemma crc_step_24:
  "IEEETable (ucast (1158199681 :: uint32) XOR 0) XOR drop_bit 8 1158199681 = 2600123151"
  by (simp add: IEEETable_def simpleMakeTable_def IEEE_def populate_bits_8)

lemma crc_step_25:
  "IEEETable (ucast (2600123151 :: uint32) XOR 111) XOR drop_bit 8 2600123151 = 1294506979"
  by (simp add: IEEETable_def simpleMakeTable_def IEEE_def populate_bits_8)

lemma crc_step_26:
  "IEEETable (ucast (1294506979 :: uint32) XOR 114) XOR drop_bit 8 1294506979 = 2269481801"
  by (simp add: IEEETable_def simpleMakeTable_def IEEE_def populate_bits_8)

lemma crc_step_27:
  "IEEETable (ucast (2269481801 :: uint32) XOR 100) XOR drop_bit 8 2269481801 = 1163401726"
  by (simp add: IEEETable_def simpleMakeTable_def IEEE_def populate_bits_8)

lemma crc_step_28:
  "IEEETable (ucast (1163401726 :: uint32) XOR 101) XOR drop_bit 8 1163401726 = 1738019541"
  by (simp add: IEEETable_def simpleMakeTable_def IEEE_def populate_bits_8)

lemma crc_step_29:
  "IEEETable (ucast (1738019541 :: uint32) XOR 114) XOR drop_bit 8 1738019541 = 1221963353"
  by (simp add: IEEETable_def simpleMakeTable_def IEEE_def populate_bits_8)

lemma crc_step_30:
  "IEEETable (ucast (1221963353 :: uint32) XOR 115) XOR drop_bit 8 1221963353 = 3690142840"
  by (simp add: IEEETable_def simpleMakeTable_def IEEE_def populate_bits_8)

lemmas crc_steps = crc_step_0 crc_step_1 crc_step_2 crc_step_3 crc_step_4 crc_step_5 crc_step_6 crc_step_7 crc_step_8 crc_step_9 crc_step_10 crc_step_11 crc_step_12 crc_step_13 crc_step_14 crc_step_15 crc_step_16 crc_step_17 crc_step_18 crc_step_19 crc_step_20 crc_step_21 crc_step_22 crc_step_23 crc_step_24 crc_step_25 crc_step_26 crc_step_27 crc_step_28 crc_step_29 crc_step_30

text \<open>
  The check value of CRC-32/IEEE, the checksum of the ASCII digits \<open>123456789\<close>, and the
  checksum of the concrete scenario's record.
\<close>

lemma ChecksumIEEE_check_value:
  "ChecksumIEEE [49, 50, 51, 52, 53, 54, 55, 56, 57] = 0xCBF43926"
  by (simp only: ChecksumIEEE_def Update_def simpleUpdate_def fold.simps o_apply id_apply
      crc_init crc_steps crc_final_check)

lemma ChecksumIEEE_scenario_tail: "ChecksumIEEE scenario_tail = 604824455"
  by (simp only: scenario_tail_def ChecksumIEEE_def Update_def simpleUpdate_def fold.simps o_apply
      id_apply crc_init crc_steps crc_final_scenario)

lemma bytes32_scenario_crc: "bytes32 604824455 = [135, 227, 12, 36]"
  by (simp add: bytes32_def)

lemma Encode_scenario_bytes:
  "Encode (scenario c s) =
     Inr (\<lparr>held = [135, 227, 12, 36, 1, 0, 16, 0, 0, 0, 42, 0, 0, 0, 0, 0, 0, 0, 1, 0,
                  111, 114, 100, 101, 114, 115],
            spare = []\<rparr>,
          \<lparr>Meta = Some \<lparr>Crc = 604824455, Op = 1, Size = 16\<rparr>,
             Id' = 42, Ds = 1, Name = [111, 114, 100, 101, 114, 115]\<rparr>)"
  unfolding Encode_scenario ChecksumIEEE_scenario_tail bytes32_scenario_crc
  by (simp add: scenario_tail_def)


section \<open>The claims\<close>

text \<open>
  Claim C1, where it fails. A name of \<open>2 ^ 32 - 10\<close> bytes gives a payload of
  \<open>2 ^ 32\<close> bytes; \<^verbatim>\<open>uint32(b.GetPayloadSize())\<close> stores \<open>0\<close> in \<open>Meta.Size\<close>, the
  \<^verbatim>\<open>Meta.Size\<close> bytes behind the header are no bytes at all, and \<^verbatim>\<open>Bucket.Decode\<close>
  panics on them: the bytes from offset \<^verbatim>\<open>BucketMetaSize\<close> to the end are not the
  \<^verbatim>\<open>Meta.Size\<close> bytes behind the header.
\<close>

theorem per_size_roundtrip_counterexample:
  "decode_per_size zero_bucket huge_bucket = Inl SliceBoundsOutOfRange"
proof -
  let ?m = "\<lparr>Crc = 0, Op = BucketInsertOperation, Size = 0\<rparr> :: BucketMeta"
  let ?all = "bytes32 (ChecksumIEEE (wire_tail ?m huge_bucket)) @ wire_tail ?m huge_bucket"
  have len: "20 \<le> length ?all" by (simp add: wire_tail_def)
  have p: "payload_by_size \<lparr>held = ?all, spare = []\<rparr> m
             = Inr \<lparr>held = [], spare = drop 10 ?all\<rparr>" if "Size m = 0" for m
    using len that by (simp add: payload_by_size_def slice_range_def scap_def BucketMetaSize_eq)
  have d: "Bucket_Decode zero_bucket \<lparr>held = [], spare = sp\<rparr> = Inl SliceBoundsOutOfRange" for sp
    by (rule Bucket_Decode_short) simp
  show ?thesis
    by (simp add: decode_per_size_def Encode_Some [OF huge_meta] huge_payload p d)
qed

text \<open>
  Claim C1, amended. For every bucket with a non-nil \<open>Meta\<close>, \<^verbatim>\<open>Encode\<close>
  returns, and \<^verbatim>\<open>Bucket.Decode\<close> of the bytes of the result from offset
  \<^verbatim>\<open>BucketMetaSize\<close> to the end returns with \<open>Id\<close>, \<open>Ds\<close> and \<open>Name\<close> of the
  encoded bucket in the receiver. Whenever \<open>10 + len(Name) < 2 ^ 32\<close>, these bytes are
  exactly the \<^verbatim>\<open>Meta.Size\<close> bytes behind the header.
\<close>

theorem Encode_Decode_roundtrip:
  assumes "Meta b = Some m"
  shows "\<exists>buf b' payload r.
           Encode b = Inr (buf, b')
           \<and> slice_from buf BucketMetaSize = Inr payload
           \<and> Bucket_Decode recv payload = Inr (r, payload, None)
           \<and> Id' r = Id' b \<and> Ds r = Ds b \<and> Name r = Name b
           \<and> (GetPayloadSize b < 2 ^ 32 \<longrightarrow>
                (\<exists>m'. Meta b' = Some m' \<and> uint (Size m') = slen payload
                   \<and> payload_by_size buf m' = Inr payload))"
proof -
  let ?c = "ChecksumIEEE (wire_tail m b)"
  let ?sz = "word_of_int (GetPayloadSize b) :: uint32"
  let ?buf = "\<lparr>held = bytes32 ?c @ wire_tail m b, spare = []\<rparr>"
  let ?m' = "m\<lparr>Size := ?sz, Crc := ?c\<rparr>"
  let ?b' = "b\<lparr>Meta := Some ?m'\<rparr>"
  let ?pl = "\<lparr>held = bytes64 (Id' b) @ bytes16 (Ds b) @ Name b, spare = []\<rparr>"
  have enc: "Encode b = Inr (?buf, ?b')" using assms by (rule Encode_Some)
  have pl: "slice_from ?buf BucketMetaSize = Inr ?pl"
    by (simp add: slice_from_def slen_def BucketMetaSize_eq wire_tail_def)
  have dec: "Bucket_Decode recv ?pl = Inr (recv\<lparr>Id' := Id' b, Name := Name b, Ds := Ds b\<rparr>, ?pl, None)"
    by (rule decode_wire_payload)
  have ps: "GetPayloadSize b = slen ?pl"
    by (simp add: GetPayloadSize_def slen_def IdSize_def DsSize_def)
  have sized: "uint (Size ?m') = slen ?pl \<and> payload_by_size ?buf ?m' = Inr ?pl"
    if lt: "GetPayloadSize b < 2 ^ 32"
  proof -
    have nonneg: "0 \<le> GetPayloadSize b"
      by (simp add: GetPayloadSize_def IdSize_def DsSize_def)
    have u: "uint ?sz = GetPayloadSize b"
      using lt nonneg by (simp add: uint_word_of_int take_bit_eq_mod)
    have total: "nat (10 + GetPayloadSize b) = length (bytes32 ?c @ wire_tail m b)"
      by (simp add: wire_tail_def GetPayloadSize_def IdSize_def DsSize_def)
    have "payload_by_size ?buf ?m' =
            Inr \<lparr>held = drop 10 (take (nat (10 + GetPayloadSize b)) (bytes32 ?c @ wire_tail m b)),
                 spare = drop (nat (10 + GetPayloadSize b)) (bytes32 ?c @ wire_tail m b)\<rparr>"
      using nonneg total
      by (simp add: payload_by_size_def slice_range_def scap_def BucketMetaSize_eq u
          del: take_append drop_append)
    also have "\<dots> = Inr ?pl"
      unfolding total by (simp add: wire_tail_def)
    finally show ?thesis using u ps by simp
  qed
  show ?thesis
    using enc pl dec sized by (intro exI [of _ ?buf] exI [of _ ?b'] exI [of _ ?pl]
        exI [of _ "recv\<lparr>Id' := Id' b, Name := Name b, Ds := Ds b\<rparr>"]) auto
qed

text \<open>
  The theorem of claim C1 on the bucket of the concrete scenario.
\<close>

theorem Encode_Decode_roundtrip_witness:
  "\<exists>buf b' payload r m'.
      Encode (scenario 0 0) = Inr (buf, b')
      \<and> slice_from buf BucketMetaSize = Inr payload
      \<and> Bucket_Decode zero_bucket payload = Inr (r, payload, None)
      \<and> Id' r = 42 \<and> Ds r = 1 \<and> Name r = [111, 114, 100, 101, 114, 115]
      \<and> Meta b' = Some m' \<and> uint (Size m') = slen payload
      \<and> payload_by_size buf m' = Inr payload"
proof -
  have m: "Meta (scenario 0 0) = Some \<lparr>Crc = 0, Op = BucketInsertOperation, Size = 0\<rparr>"
    by (simp add: scenario_def)
  have lt: "GetPayloadSize (scenario 0 0) < 2 ^ 32"
    by (simp add: GetPayloadSize_def scenario_def go_string_orders IdSize_def DsSize_def)
  have f: "Id' (scenario 0 0) = 42" "Ds (scenario 0 0) = 1"
    "Name (scenario 0 0) = [111, 114, 100, 101, 114, 115]"
    by (simp_all add: scenario_def go_string_orders)
  from Encode_Decode_roundtrip [OF m, of zero_bucket] lt
  show ?thesis unfolding f by blast
qed

text \<open>
  Claim C2. For every bucket, the buffer \<^verbatim>\<open>Encode\<close> returns holds at offsets
  \<open>[0:4)\<close>, in little-endian order, the CRC-32 (IEEE) checksum of its own bytes from
  offset 4 to the end; reading those four bytes back with \<^verbatim>\<open>Uint32\<close> gives that
  checksum, and the receiver's \<open>Meta.Crc\<close> holds it after the call.
\<close>

theorem Encode_checksum:
  assumes "Encode b = Inr (buf, b')"
  shows "le_val (bytes_at (held buf) 0 4) = unat (ChecksumIEEE (drop 4 (held buf)))
         \<and> andThen (slice_range buf 0 4) Uint32 = Inr (ChecksumIEEE (drop 4 (held buf)))
         \<and> (\<exists>m'. Meta b' = Some m' \<and> Crc m' = ChecksumIEEE (drop 4 (held buf)))"
  using assms
proof (elim Encode_InrD)
  fix m
  assume buf: "buf = \<lparr>held = bytes32 (ChecksumIEEE (wire_tail m b)) @ wire_tail m b, spare = []\<rparr>"
    and b': "b' = b\<lparr>Meta := Some (m\<lparr>Size := word_of_int (GetPayloadSize b),
                                   Crc := ChecksumIEEE (wire_tail m b)\<rparr>)\<rparr>"
  let ?c = "ChecksumIEEE (wire_tail m b)"
  have d: "drop 4 (held buf) = wire_tail m b" by (simp add: buf)
  have t: "bytes_at (held buf) 0 4 = bytes32 ?c" by (simp add: buf bytes_at_def)
  have r: "slice_range buf 0 4 = Inr \<lparr>held = bytes32 ?c, spare = wire_tail m b\<rparr>"
    by (simp add: buf slice_range_def scap_def)
  have u: "Uint32 \<lparr>held = bytes32 ?c, spare = wire_tail m b\<rparr> = Inr ?c"
    by (simp add: Uint32_held) (simp add: bytes32_def word32_of_bytes32)
  show ?thesis
    by (simp add: d t r u le_val_bytes32 b')
qed

text \<open>
  The theorem of claim C2 on the bucket of the concrete scenario.
\<close>

theorem Encode_checksum_witness:
  "\<exists>buf b'. Encode (scenario 0 0) = Inr (buf, b')
      \<and> le_val (bytes_at (held buf) 0 4) = unat (ChecksumIEEE (drop 4 (held buf)))
      \<and> andThen (slice_range buf 0 4) Uint32 = Inr (ChecksumIEEE (drop 4 (held buf)))
      \<and> (\<exists>m'. Meta b' = Some m' \<and> Crc m' = ChecksumIEEE (drop 4 (held buf)))"
proof -
  have e: "Encode (scenario 0 0) =
     Inr (\<lparr>held = bytes32 (ChecksumIEEE scenario_tail) @ scenario_tail, spare = []\<rparr>,
          \<lparr>Meta = Some \<lparr>Crc = ChecksumIEEE scenario_tail, Op = 1, Size = 16\<rparr>,
             Id' = 42, Ds = 1, Name = [111, 114, 100, 101, 114, 115]\<rparr>)"
    by (rule Encode_scenario)
  from Encode_checksum [OF e] e show ?thesis by blast
qed

text \<open>
  Claim C3. For every pair of slices whose first has at least four bytes,
  \<^verbatim>\<open>GetCRC\<close> is the CRC-32 (IEEE) checksum of \<^verbatim>\<open>headerBuf[4:]\<close> followed by
  \<^verbatim>\<open>dataBuf\<close>; on the header and the payload half of a buffer returned by
  \<^verbatim>\<open>Encode\<close> it is the value stored at offset 0 of the buffer and in \<open>Meta.Crc\<close>.
\<close>

theorem GetCRC_concat:
  "(4 \<le> slen headerBuf \<longrightarrow>
      GetCRC r headerBuf dataBuf = Inr (ChecksumIEEE (drop 4 (held headerBuf) @ held dataBuf)))
   \<and> (Encode b = Inr (buf, b') \<longrightarrow>
        (\<exists>h d m'. slice_range buf 0 BucketMetaSize = Inr h
           \<and> slice_from buf BucketMetaSize = Inr d
           \<and> Meta b' = Some m'
           \<and> GetCRC r h d = Inr (Crc m')
           \<and> andThen (slice_range buf 0 4) Uint32 = Inr (Crc m')))"
proof (intro conjI impI)
  assume "4 \<le> slen headerBuf"
  then show "GetCRC r headerBuf dataBuf = Inr (ChecksumIEEE (drop 4 (held headerBuf) @ held dataBuf))"
    by (simp add: GetCRC_def slice_from_def crc_append)
next
  assume enc: "Encode b = Inr (buf, b')"
  from enc obtain m where buf: "buf = \<lparr>held = bytes32 (ChecksumIEEE (wire_tail m b)) @ wire_tail m b, spare = []\<rparr>"
    and b': "b' = b\<lparr>Meta := Some (m\<lparr>Size := word_of_int (GetPayloadSize b),
                                   Crc := ChecksumIEEE (wire_tail m b)\<rparr>)\<rparr>"
    by (elim Encode_InrD)
  let ?c = "ChecksumIEEE (wire_tail m b)"
  define all where "all = bytes32 ?c @ wire_tail m b"
  have buf_all: "buf = \<lparr>held = all, spare = []\<rparr>" by (simp add: buf all_def)
  have len: "20 \<le> length all" by (simp add: all_def wire_tail_def)
  have tail: "drop 4 all = wire_tail m b" by (simp add: all_def)
  have h: "slice_range buf 0 BucketMetaSize = Inr \<lparr>held = take 10 all, spare = drop 10 all\<rparr>"
    using len by (simp add: buf_all slice_range_def scap_def BucketMetaSize_eq)
  have d: "slice_from buf BucketMetaSize = Inr \<lparr>held = drop 10 all, spare = []\<rparr>"
    using len by (simp add: buf_all slice_from_def slen_def BucketMetaSize_eq)
  have "drop 4 (take 10 all @ drop 10 all) = drop 4 (take 10 all) @ drop 10 all"
    using len by (simp del: append_take_drop_id)
  then have cat: "drop 4 (take 10 all) @ drop 10 all = wire_tail m b"
    by (simp add: tail)
  have g: "GetCRC r \<lparr>held = take 10 all, spare = drop 10 all\<rparr> \<lparr>held = drop 10 all, spare = []\<rparr>
             = Inr ?c"
    using len by (simp add: GetCRC_def slice_from_def slen_def crc_append cat)
  have u: "andThen (slice_range buf 0 4) Uint32 = Inr ?c"
    by (simp add: buf slice_range_def scap_def Uint32_held) (simp add: bytes32_def word32_of_bytes32)
  show "\<exists>h d m'. slice_range buf 0 BucketMetaSize = Inr h
           \<and> slice_from buf BucketMetaSize = Inr d
           \<and> Meta b' = Some m'
           \<and> GetCRC r h d = Inr (Crc m')
           \<and> andThen (slice_range buf 0 4) Uint32 = Inr (Crc m')"
    by (simp add: h d g u b')
qed

text \<open>
  The theorem of claim C3 on two short slices and on the concrete scenario.
\<close>

theorem GetCRC_concat_witness:
  "GetCRC zero_bucket \<lparr>held = [1, 2, 3, 4, 5, 6], spare = []\<rparr> \<lparr>held = [7, 8], spare = []\<rparr>
     = Inr (ChecksumIEEE [5, 6, 7, 8])
   \<and> (\<exists>buf b' h d m'. Encode (scenario 0 0) = Inr (buf, b')
         \<and> slice_range buf 0 BucketMetaSize = Inr h
         \<and> slice_from buf BucketMetaSize = Inr d
         \<and> Meta b' = Some m'
         \<and> GetCRC zero_bucket h d = Inr (Crc m')
         \<and> andThen (slice_range buf 0 4) Uint32 = Inr (Crc m'))"
proof -
  have e: "Encode (scenario 0 0) =
     Inr (\<lparr>held = bytes32 (ChecksumIEEE scenario_tail) @ scenario_tail, spare = []\<rparr>,
          \<lparr>Meta = Some \<lparr>Crc = ChecksumIEEE scenario_tail, Op = 1, Size = 16\<rparr>,
             Id' = 42, Ds = 1, Name = [111, 114, 100, 101, 114, 115]\<rparr>)"
    by (rule Encode_scenario)
  have "GetCRC zero_bucket \<lparr>held = [1, 2, 3, 4, 5, 6], spare = []\<rparr> \<lparr>held = [7, 8], spare = []\<rparr>
     = Inr (ChecksumIEEE [5, 6, 7, 8])"
    using GetCRC_concat [of "\<lparr>held = [1, 2, 3, 4, 5, 6], spare = []\<rparr>" zero_bucket
        "\<lparr>held = [7, 8], spare = []\<rparr>" zero_bucket "\<lparr>held = [], spare = []\<rparr>" zero_bucket]
    by (simp add: slen_def)
  moreover from GetCRC_concat [of "\<lparr>held = [], spare = []\<rparr>" zero_bucket "\<lparr>held = [], spare = []\<rparr>"
      "scenario 0 0" _ _] e
  have "\<exists>h d m'. slice_range \<lparr>held = bytes32 (ChecksumIEEE scenario_tail) @ scenario_tail, spare = []\<rparr> 0 BucketMetaSize = Inr h
         \<and> slice_from \<lparr>held = bytes32 (ChecksumIEEE scenario_tail) @ scenario_tail, spare = []\<rparr> BucketMetaSize = Inr d
         \<and> Meta \<lparr>Meta = Some \<lparr>Crc = ChecksumIEEE scenario_tail, Op = 1, Size = 16\<rparr>,
             Id' = 42, Ds = 1, Name = [111, 114, 100, 101, 114, 115]\<rparr> = Some m'
         \<and> GetCRC zero_bucket h d = Inr (Crc m')
         \<and> andThen (slice_range \<lparr>held = bytes32 (ChecksumIEEE scenario_tail) @ scenario_tail, spare = []\<rparr> 0 4) Uint32 = Inr (Crc m')"
    by blast
  ultimately show ?thesis using e by blast
qed

text \<open>
  Claim C4. For every byte slice of length at least \<^verbatim>\<open>BucketMetaSize\<close>,
  \<^verbatim>\<open>BucketMeta.Decode\<close> returns without a panic and leaves in the receiver: in
  \<open>Crc\<close> the little-endian number held by the bytes at offsets \<open>[0:4)\<close>, in \<open>Op\<close> the one
  at \<open>[4:6)\<close>, in \<open>Size\<close> the one at \<open>[6:10)\<close>. Nothing is compared with a checksum (the
  call succeeds whatever the bytes are), and the outcome is the same for every other
  slice that agrees on the first ten bytes, so nothing behind offset 10 is read.
\<close>

theorem BucketMeta_Decode_layout:
  assumes "BucketMetaSize \<le> slen bytes"
  shows "\<exists>m'. BucketMeta_Decode meta bytes = Inr m'
           \<and> unat (Crc m') = le_val (bytes_at (held bytes) 0 4)
           \<and> unat (Op m') = le_val (bytes_at (held bytes) 4 6)
           \<and> unat (Size m') = le_val (bytes_at (held bytes) 6 10)
           \<and> (\<forall>other. take 10 (held other) = take 10 (held bytes)
                 \<longrightarrow> BucketMeta_Decode meta other = Inr m')"
proof -
  let ?h = "held bytes"
  let ?m = "meta\<lparr>Crc := word32_of (?h ! 0) (?h ! 1) (?h ! 2) (?h ! 3),
                  Size := word32_of (?h ! 6) (?h ! 7) (?h ! 8) (?h ! 9),
                  Op := word16_of (?h ! 4) (?h ! 5)\<rparr>"
  have len: "10 \<le> length ?h"
    using assms by (simp add: BucketMetaSize_eq slen_def)
  have dec: "BucketMeta_Decode meta bytes = Inr ?m"
    using len by (rule BucketMeta_Decode_ok)
  have c: "bytes_at ?h 0 4 = [?h ! 0, ?h ! 1, ?h ! 2, ?h ! 3]"
    using bytes_at_prefix4 [of ?h] len by simp
  have o: "bytes_at ?h 4 6 = [?h ! 4, ?h ! 5]"
    using bytes_at_2 [of 4 ?h] len by simp
  have z: "bytes_at ?h 6 10 = [?h ! 6, ?h ! 7, ?h ! 8, ?h ! 9]"
    using bytes_at_4 [of 6 ?h] len by simp
  have same: "BucketMeta_Decode meta other = Inr ?m"
    if eq: "take 10 (held other) = take 10 ?h" for other
  proof -
    have "length (take 10 (held other)) = 10" using eq len by simp
    then have lo: "10 \<le> length (held other)" by simp
    have nth: "held other ! i = ?h ! i" if "i < 10" for i
      using that nth_take [of i 10 "held other"] nth_take [of i 10 ?h] eq by simp
    show ?thesis
      unfolding BucketMeta_Decode_ok [OF lo] by (simp add: nth)
  qed
  show ?thesis
    using dec same by (simp add: c o z unat_word32_of unat_word16_of)
qed

text \<open>
  The theorem of claim C4 on the header of the concrete scenario, followed by
  different bytes.
\<close>

theorem BucketMeta_Decode_layout_witness:
  "\<exists>m'. BucketMeta_Decode zero_meta
            \<lparr>held = [135, 227, 12, 36, 1, 0, 16, 0, 0, 0, 42, 0], spare = []\<rparr> = Inr m'
        \<and> unat (Crc m') = 604824455 \<and> unat (Op m') = 1 \<and> unat (Size m') = 16
        \<and> BucketMeta_Decode zero_meta
            \<lparr>held = [135, 227, 12, 36, 1, 0, 16, 0, 0, 0, 9, 9, 9], spare = [7]\<rparr> = Inr m'"
proof -
  let ?s = "\<lparr>held = [135, 227, 12, 36, 1, 0, 16, 0, 0, 0, 42, 0], spare = []\<rparr> :: bslice"
  let ?t = "\<lparr>held = [135, 227, 12, 36, 1, 0, 16, 0, 0, 0, 9, 9, 9], spare = [7]\<rparr> :: bslice"
  have h: "BucketMetaSize \<le> slen ?s" by (simp add: BucketMetaSize_eq slen_def)
  from BucketMeta_Decode_layout [OF h, of zero_meta]
  obtain m' where d: "BucketMeta_Decode zero_meta ?s = Inr m'"
    and c: "unat (Crc m') = le_val (bytes_at (held ?s) 0 4)"
    and o: "unat (Op m') = le_val (bytes_at (held ?s) 4 6)"
    and z: "unat (Size m') = le_val (bytes_at (held ?s) 6 10)"
    and a: "\<forall>other. take 10 (held other) = take 10 (held ?s)
               \<longrightarrow> BucketMeta_Decode zero_meta other = Inr m'"
    by blast
  have t: "BucketMeta_Decode zero_meta ?t = Inr m'"
    using a [rule_format, of ?t] by simp
  show ?thesis
    using d c o z t by (simp add: bytes_at_def)
qed

text \<open>
  Claim C5. For every bucket, \<^verbatim>\<open>GetEntrySize\<close> is \<^verbatim>\<open>BucketMetaSize\<close> plus
  \<^verbatim>\<open>GetPayloadSize\<close>, \<^verbatim>\<open>GetPayloadSize\<close> is \<open>8 + 2 + len(Name) = 10 + len(Name)\<close>,
  and a buffer returned by \<^verbatim>\<open>Encode\<close> has exactly \<^verbatim>\<open>GetEntrySize\<close> bytes.
\<close>

theorem size_consistency:
  "GetEntrySize b = BucketMetaSize + GetPayloadSize b
   \<and> GetPayloadSize b = 8 + 2 + int (length (Name b))
   \<and> GetPayloadSize b = 10 + int (length (Name b))
   \<and> (\<forall>buf b'. Encode b = Inr (buf, b') \<longrightarrow> slen buf = GetEntrySize b)"
proof -
  have "slen buf = GetEntrySize b" if "Encode b = Inr (buf, b')" for buf b'
    using that
    by (elim Encode_InrD)
       (simp add: slen_def wire_tail_def GetEntrySize_def GetPayloadSize_def BucketMetaSize_eq
          IdSize_def DsSize_def)
  then show ?thesis
    by (simp add: GetEntrySize_def GetPayloadSize_def IdSize_def DsSize_def)
qed

text \<open>
  The theorem of claim C5 on the bucket of the concrete scenario.
\<close>

theorem size_consistency_witness:
  "\<exists>buf b'. Encode (scenario 0 0) = Inr (buf, b') \<and> slen buf = GetEntrySize (scenario 0 0)
      \<and> GetEntrySize (scenario 0 0) = 26"
proof -
  have e: "Encode (scenario 0 0) =
     Inr (\<lparr>held = bytes32 (ChecksumIEEE scenario_tail) @ scenario_tail, spare = []\<rparr>,
          \<lparr>Meta = Some \<lparr>Crc = ChecksumIEEE scenario_tail, Op = 1, Size = 16\<rparr>,
             Id' = 42, Ds = 1, Name = [111, 114, 100, 101, 114, 115]\<rparr>)"
    by (rule Encode_scenario)
  from size_consistency [of "scenario 0 0"] e
  have "slen \<lparr>held = bytes32 (ChecksumIEEE scenario_tail) @ scenario_tail, spare = []\<rparr>
          = GetEntrySize (scenario 0 0)"
    by blast
  moreover have "GetEntrySize (scenario 0 0) = 26"
    using size_consistency [of "scenario 0 0"]
    by (simp add: BucketMetaSize_eq scenario_def go_string_orders)
  ultimately show ?thesis using e by blast
qed

text \<open>
  Claim C6, where it fails. For a name of \<open>2 ^ 32 - 10\<close> bytes the payload size
  \<open>10 + len(Name)\<close> is \<open>2 ^ 32\<close>, and \<^verbatim>\<open>uint32(b.GetPayloadSize())\<close> leaves \<open>0\<close> in
  \<open>Meta.Size\<close>.
\<close>

theorem Size_truncated_counterexample:
  "map_option Size (encoded_meta huge_bucket) = Some 0
   \<and> 10 + int (length (Name huge_bucket)) = 4294967296"
  by (simp add: encoded_meta_def Encode_Some [OF huge_meta] huge_payload)
     (simp add: huge_bucket_def)

text \<open>
  Claim C6, amended. Whenever \<^verbatim>\<open>Encode\<close> returns, the receiver differs from what
  it was in \<open>Meta.Size\<close> and \<open>Meta.Crc\<close> only: \<open>Meta.Op\<close>, \<open>Id\<close>, \<open>Ds\<close> and \<open>Name\<close> are
  unchanged, \<open>Meta.Crc\<close> is the checksum of the returned buffer from offset 4, and
  \<open>Meta.Size\<close> is the payload size converted to \<^verbatim>\<open>uint32\<close>, that is
  \<open>(10 + len(Name)) mod 2 ^ 32\<close>, which is \<open>10 + len(Name)\<close> whenever that is below
  \<open>2 ^ 32\<close>.
\<close>

theorem Encode_frame:
  assumes "Encode b = Inr (buf, b')"
  shows "\<exists>m m'. Meta b = Some m \<and> Meta b' = Some m'
           \<and> b' = b\<lparr>Meta := Some (m\<lparr>Size := Size m', Crc := Crc m'\<rparr>)\<rparr>
           \<and> Size m' = word_of_int (GetPayloadSize b)
           \<and> uint (Size m') = (10 + int (length (Name b))) mod 2 ^ 32
           \<and> (10 + int (length (Name b)) < 2 ^ 32 \<longrightarrow>
                 uint (Size m') = 10 + int (length (Name b)))
           \<and> Crc m' = ChecksumIEEE (drop 4 (held buf))
           \<and> Op m' = Op m \<and> Id' b' = Id' b \<and> Ds b' = Ds b \<and> Name b' = Name b"
  using assms
proof (elim Encode_InrD)
  fix m
  assume m: "Meta b = Some m"
    and buf: "buf = \<lparr>held = bytes32 (ChecksumIEEE (wire_tail m b)) @ wire_tail m b, spare = []\<rparr>"
    and b': "b' = b\<lparr>Meta := Some (m\<lparr>Size := word_of_int (GetPayloadSize b),
                                   Crc := ChecksumIEEE (wire_tail m b)\<rparr>)\<rparr>"
  let ?m' = "m\<lparr>Size := word_of_int (GetPayloadSize b), Crc := ChecksumIEEE (wire_tail m b)\<rparr>"
  have p: "GetPayloadSize b = 10 + int (length (Name b))"
    by (simp add: GetPayloadSize_def IdSize_def DsSize_def)
  have "uint (word_of_int k :: uint32) = k mod 2 ^ 32" for k
    by (simp add: uint_word_of_int take_bit_eq_mod)
  then have u: "uint (word_of_int (GetPayloadSize b) :: uint32)
                  = (10 + int (length (Name b))) mod 2 ^ 32"
    by (simp only: p)
  have d: "drop 4 (held buf) = wire_tail m b" by (simp add: buf)
  show ?thesis
    by (intro exI [of _ m] exI [of _ ?m']) (simp add: m b' u d)
qed

text \<open>
  The theorem of claim C6 on the bucket of the concrete scenario, with a stale
  checksum and size in its header before the call.
\<close>

theorem Encode_frame_witness:
  "\<exists>buf b' m'. Encode (scenario 5 9) = Inr (buf, b')
      \<and> Meta b' = Some m'
      \<and> b' = (scenario 5 9)\<lparr>Meta := Some \<lparr>Crc = Crc m', Op = BucketInsertOperation, Size = Size m'\<rparr>\<rparr>
      \<and> uint (Size m') = 16
      \<and> Crc m' = ChecksumIEEE (drop 4 (held buf))
      \<and> Op m' = BucketInsertOperation
      \<and> Id' b' = 42 \<and> Ds b' = 1 \<and> Name b' = [111, 114, 100, 101, 114, 115]"
proof -
  have e: "Encode (scenario 5 9) =
     Inr (\<lparr>held = bytes32 (ChecksumIEEE scenario_tail) @ scenario_tail, spare = []\<rparr>,
          \<lparr>Meta = Some \<lparr>Crc = ChecksumIEEE scenario_tail, Op = 1, Size = 16\<rparr>,
             Id' = 42, Ds = 1, Name = [111, 114, 100, 101, 114, 115]\<rparr>)"
    by (rule Encode_scenario)
  from Encode_frame [OF e] e show ?thesis
    by (simp add: scenario_def go_string_orders BucketInsertOperation_def)
qed

text \<open>
  Claim C7, where it fails. The widths of the three header fields are 4, 2 and 4
  bytes; the header size is not \<open>4 + 2 + 6\<close>.
\<close>

theorem header_width_counterexample: "BucketMetaSize \<noteq> 4 + 2 + 6"
  by (simp add: BucketMetaSize_eq)

text \<open>
  Claim C7, amended. \<^verbatim>\<open>BucketMetaSize\<close>, computed from a zero-valued
  \<^verbatim>\<open>BucketMeta\<close>, is the sum of the byte widths of the three header fields,
  \<open>4 + 2 + 4 = 10\<close>; in every buffer \<^verbatim>\<open>Encode\<close> returns the first ten bytes are the
  header (checksum, operation, size) and the payload (id, tag, name) begins at offset
  10.
\<close>

theorem header_width:
  "BucketMetaSize = sum_list BucketMeta_field_widths
   \<and> BucketMetaSize = 4 + 2 + 4
   \<and> BucketMetaSize = 10
   \<and> (\<forall>b buf b'. Encode b = Inr (buf, b') \<longrightarrow>
        (\<exists>m'. Meta b' = Some m'
           \<and> bytes_at (held buf) 0 (nat BucketMetaSize)
                = bytes32 (Crc m') @ bytes16 (Op m') @ bytes32 (Size m')
           \<and> drop (nat BucketMetaSize) (held buf) = bytes64 (Id' b) @ bytes16 (Ds b) @ Name b))"
proof -
  have "\<exists>m'. Meta b' = Some m'
           \<and> bytes_at (held buf) 0 (nat BucketMetaSize)
                = bytes32 (Crc m') @ bytes16 (Op m') @ bytes32 (Size m')
           \<and> drop (nat BucketMetaSize) (held buf) = bytes64 (Id' b) @ bytes16 (Ds b) @ Name b"
    if "Encode b = Inr (buf, b')" for b buf b'
    using that
    by (elim Encode_InrD) (simp add: BucketMetaSize_eq bytes_at_def wire_tail_def)
  then show ?thesis
    by (simp add: BucketMetaSize_eq BucketMeta_field_widths_def)
qed

text \<open>
  The theorem of claim C7 on the bucket of the concrete scenario.
\<close>

theorem header_width_witness:
  "\<exists>buf b' m'. Encode (scenario 0 0) = Inr (buf, b')
       \<and> Meta b' = Some m'
       \<and> bytes_at (held buf) 0 10 = bytes32 (Crc m') @ [1, 0, 16, 0, 0, 0]
       \<and> drop 10 (held buf) = [42, 0, 0, 0, 0, 0, 0, 0, 1, 0, 111, 114, 100, 101, 114, 115]"
proof -
  have e: "Encode (scenario 0 0) =
     Inr (\<lparr>held = bytes32 (ChecksumIEEE scenario_tail) @ scenario_tail, spare = []\<rparr>,
          \<lparr>Meta = Some \<lparr>Crc = ChecksumIEEE scenario_tail, Op = 1, Size = 16\<rparr>,
             Id' = 42, Ds = 1, Name = [111, 114, 100, 101, 114, 115]\<rparr>)"
    by (rule Encode_scenario)
  from header_width e
  have "\<exists>m'. Meta \<lparr>Meta = Some \<lparr>Crc = ChecksumIEEE scenario_tail, Op = 1, Size = 16\<rparr>,
             Id' = 42, Ds = 1, Name = [111, 114, 100, 101, 114, 115]\<rparr> = Some m'
           \<and> bytes_at (held \<lparr>held = bytes32 (ChecksumIEEE scenario_tail) @ scenario_tail, spare = []\<rparr>)
                0 (nat BucketMetaSize)
                = bytes32 (Crc m') @ bytes16 (Op m') @ bytes32 (Size m')
           \<and> drop (nat BucketMetaSize)
                (held \<lparr>held = bytes32 (ChecksumIEEE scenario_tail) @ scenario_tail, spare = []\<rparr>)
                = bytes64 (Id' (scenario 0 0)) @ bytes16 (Ds (scenario 0 0)) @ Name (scenario 0 0)"
    by blast
  then show ?thesis
    unfolding e
    by (simp add: BucketMetaSize_eq scenario_def go_string_orders bytes16_def bytes32_def
        bytes64_def scenario_tail_def bytes_at_def)
qed

text \<open>
  Claim C8. For the bucket with \<open>Id = 42\<close>, \<open>Ds = 1\<close>, \<open>Name = "orders"\<close> and
  \<open>Meta.Op = 1\<close>, whatever checksum and size its header holds before: \<^verbatim>\<open>Encode\<close>
  returns a buffer of 26 bytes; \<^verbatim>\<open>BucketMeta.Decode\<close> of its first 10 bytes gives
  \<open>Op = 1\<close> and \<open>Size = 16\<close>; \<^verbatim>\<open>Bucket.Decode\<close> of its remaining 16 bytes gives
  \<open>Id = 42\<close>, \<open>Ds = 1\<close> and \<open>Name = "orders"\<close>.
\<close>

theorem concrete_scenario:
  "\<exists>buf b'. Encode (scenario c s) = Inr (buf, b')
      \<and> slen buf = 26
      \<and> (\<exists>hdr m'. slice_range buf 0 10 = Inr hdr \<and> slen hdr = 10
            \<and> BucketMeta_Decode meta hdr = Inr m' \<and> Op m' = 1 \<and> Size m' = 16)
      \<and> (\<exists>pl r. slice_from buf 10 = Inr pl \<and> slen pl = 16
            \<and> Bucket_Decode recv pl = Inr (r, pl, None)
            \<and> Id' r = 42 \<and> Ds r = 1 \<and> Name r = go_string ''orders'')"
proof -
  let ?crc = "ChecksumIEEE scenario_tail"
  let ?buf = "\<lparr>held = bytes32 ?crc @ scenario_tail, spare = []\<rparr>"
  let ?b' = "\<lparr>Meta = Some \<lparr>Crc = ?crc, Op = 1, Size = 16\<rparr>,
              Id' = 42, Ds = 1, Name = [111, 114, 100, 101, 114, 115]\<rparr>"
  let ?hdr = "\<lparr>held = bytes32 ?crc @ [1, 0, 16, 0, 0, 0],
               spare = [42, 0, 0, 0, 0, 0, 0, 0, 1, 0, 111, 114, 100, 101, 114, 115]\<rparr>"
  let ?pl = "\<lparr>held = bytes64 42 @ bytes16 1 @ go_string ''orders'', spare = []\<rparr>"
  have enc: "Encode (scenario c s) = Inr (?buf, ?b')" by (rule Encode_scenario)
  have len: "slen ?buf = 26" by (simp add: slen_def scenario_tail_def)
  have hdr: "slice_range ?buf 0 10 = Inr ?hdr"
    by (simp add: slice_range_def scap_def scenario_tail_def)
  have hl: "slen ?hdr = 10" by (simp add: slen_def)
  have hd: "BucketMeta_Decode meta ?hdr
              = Inr (meta\<lparr>Crc := word32_of (bytes32 ?crc ! 0) (bytes32 ?crc ! 1)
                                     (bytes32 ?crc ! 2) (bytes32 ?crc ! 3),
                         Size := 16, Op := 1\<rparr>)"
    by (simp add: BucketMeta_Decode_ok nth_append word32_of_def)
  have pl: "slice_from ?buf 10 = Inr ?pl"
    by (simp add: slice_from_def slen_def scenario_tail_split)
  have pll: "slen ?pl = 16" by (simp add: slen_def go_string_orders)
  have dec: "Bucket_Decode recv ?pl
               = Inr (recv\<lparr>Id' := 42, Name := go_string ''orders'', Ds := 1\<rparr>, ?pl, None)"
    by (rule decode_wire_payload)
  have A: "\<exists>hdr m'. slice_range ?buf 0 10 = Inr hdr \<and> slen hdr = 10
            \<and> BucketMeta_Decode meta hdr = Inr m' \<and> Op m' = 1 \<and> Size m' = 16"
    using hdr hl hd by simp
  have B: "\<exists>pl r. slice_from ?buf 10 = Inr pl \<and> slen pl = 16
            \<and> Bucket_Decode recv pl = Inr (r, pl, None)
            \<and> Id' r = 42 \<and> Ds r = 1 \<and> Name r = go_string ''orders''"
    using pl pll dec by simp
  from enc len A B show ?thesis by blast
qed

text \<open>
  The theorem of claim C8 with zero-valued receivers for the two decoders.
\<close>

theorem concrete_scenario_witness:
  "\<exists>buf b'. Encode (scenario 0 0) = Inr (buf, b')
      \<and> slen buf = 26
      \<and> (\<exists>hdr m'. slice_range buf 0 10 = Inr hdr \<and> slen hdr = 10
            \<and> BucketMeta_Decode zero_meta hdr = Inr m' \<and> Op m' = 1 \<and> Size m' = 16)
      \<and> (\<exists>pl r. slice_from buf 10 = Inr pl \<and> slen pl = 16
            \<and> Bucket_Decode zero_bucket pl = Inr (r, pl, None)
            \<and> Id' r = 42 \<and> Ds r = 1 \<and> Name r = [111, 114, 100, 101, 114, 115])"
  using concrete_scenario [of 0 0 zero_meta zero_bucket]
  by (simp only: go_string_orders)

text \<open>
  Claim C9. \<^verbatim>\<open>BucketMeta.Decode\<close> returns for every slice of length at least
  \<^verbatim>\<open>BucketMetaSize\<close> and panics with an index out of range for every shorter one;
  \<^verbatim>\<open>Bucket.Decode\<close> returns for every payload of length at least 10 and panics with
  slice bounds out of range for every shorter one (at the latest at \<^verbatim>\<open>bytes[10:]\<close>,
  whose bound is the length, whatever the capacity is).
\<close>

theorem decoders_total_iff:
  "(BucketMetaSize \<le> slen bytes \<longrightarrow> (\<exists>m'. BucketMeta_Decode meta bytes = Inr m'))
   \<and> (slen bytes < BucketMetaSize \<longrightarrow> BucketMeta_Decode meta bytes = Inl IndexOutOfRange)
   \<and> (10 \<le> slen payload \<longrightarrow> (\<exists>r. Bucket_Decode b payload = Inr r))
   \<and> (slen payload < 10 \<longrightarrow> Bucket_Decode b payload = Inl SliceBoundsOutOfRange)"
  by (simp add: BucketMetaSize_eq slen_def BucketMeta_Decode_ok BucketMeta_Decode_short
      Bucket_Decode_ok Bucket_Decode_short)

text \<open>
  The theorem of claim C9 on slices of ten and of nine bytes, the short ones with
  spare capacity.
\<close>

theorem decoders_total_iff_witness:
  "(\<exists>m'. BucketMeta_Decode zero_meta \<lparr>held = [1, 2, 3, 4, 5, 6, 7, 8, 9, 10], spare = []\<rparr> = Inr m')
   \<and> BucketMeta_Decode zero_meta \<lparr>held = [1, 2, 3, 4, 5, 6, 7, 8, 9], spare = [10, 11]\<rparr>
        = Inl IndexOutOfRange
   \<and> (\<exists>r. Bucket_Decode zero_bucket \<lparr>held = [1, 2, 3, 4, 5, 6, 7, 8, 9, 10], spare = []\<rparr> = Inr r)
   \<and> Bucket_Decode zero_bucket \<lparr>held = [1, 2, 3, 4, 5, 6, 7, 8, 9], spare = [10, 11]\<rparr>
        = Inl SliceBoundsOutOfRange"
  using decoders_total_iff [of "\<lparr>held = [1, 2, 3, 4, 5, 6, 7, 8, 9, 10], spare = []\<rparr>" zero_meta
      "\<lparr>held = [1, 2, 3, 4, 5, 6, 7, 8, 9, 10], spare = []\<rparr>" zero_bucket]
    decoders_total_iff [of "\<lparr>held = [1, 2, 3, 4, 5, 6, 7, 8, 9], spare = [10, 11]\<rparr>" zero_meta
      "\<lparr>held = [1, 2, 3, 4, 5, 6, 7, 8, 9], spare = [10, 11]\<rparr>" zero_bucket]
  by (simp add: BucketMetaSize_eq slen_def)

text \<open>
  Claim C10. For every bucket and every payload of length at least 10,
  \<^verbatim>\<open>Bucket.Decode\<close> returns the nil error, never \<^verbatim>\<open>ErrBucketCrcInvalid\<close>, whatever
  checksum the receiver's header holds; the receiver's \<open>Meta\<close> and the argument bytes
  are as they were before the call.
\<close>

theorem Bucket_Decode_nil_error:
  assumes "10 \<le> slen bytes"
  shows "\<exists>b'. Bucket_Decode b bytes = Inr (b', bytes, None) \<and> Meta b' = Meta b"
  using assms by (simp add: slen_def Bucket_Decode_ok)

text \<open>
  The theorem of claim C10 on eleven bytes that no checksum in the receiver matches.
\<close>

theorem Bucket_Decode_nil_error_witness:
  "\<exists>b'. Bucket_Decode (scenario 0 0) \<lparr>held = [1, 2, 3, 4, 5, 6, 7, 8, 9, 10, 11], spare = []\<rparr>
           = Inr (b', \<lparr>held = [1, 2, 3, 4, 5, 6, 7, 8, 9, 10, 11], spare = []\<rparr>, None)
        \<and> Meta b' = Meta (scenario 0 0)"
  using Bucket_Decode_nil_error [of "\<lparr>held = [1, 2, 3, 4, 5, 6, 7, 8, 9, 10, 11], spare = []\<rparr>"
      "scenario 0 0"]
  by (simp add: slen_def)

end
